theory Spec2Isabelle
  imports Main
begin

section \<open>Values, objects and the store\<close>

text \<open>
  The module \<open>state.py\<close> defines containers that are mutated in place and that may hold
  references to one another, so the embedding keeps an explicit store: a list of objects,
  an address being an index into it. Allocation appends, so a fresh address is the length
  of the store.

  Hashable values (the possible dictionary keys) are \<open>None\<close>, integers and strings.
  A value is such an atom or a reference to a container object. A container is a
  dictionary (the built-in \<open>dict\<close>, \<open>StateDict\<close> or \<open>View\<close>) holding its
  entries in insertion order, or a list (the built-in \<open>list\<close> or \<open>History\<close>).
\<close>

type_synonym addr = nat

datatype atom = ANone | AInt int | AStr string

datatype val = VAtom atom | VRef addr

datatype dcls = PlainDict | StateDictC | ViewC

datatype lcls = PlainList | HistoryC

type_synonym entries = "(atom \<times> val) list"

datatype obj = ODict dcls entries | OList lcls "val list"

type_synonym heap = "obj list"

datatype error = TypeError | ValueError | KeyError | AttributeError

definition deref :: "heap \<Rightarrow> addr \<Rightarrow> obj option" where
  "deref h a = (if a < length h then Some (h ! a) else None)"

definition alloc :: "heap \<Rightarrow> obj \<Rightarrow> heap \<times> addr" where
  "alloc h ob = (h @ [ob], length h)"

section \<open>Classes and method resolution\<close>

text \<open>
  A class is its name together with the names bound in its own \<open>__dict__\<close>; a type is
  given by its \<open>__mro__\<close>, the class itself first. The classes of the module list the
  names their bodies define; for the built-in classes the lists hold the method names that
  matter for the lookups made here.
\<close>

record pycls =
  cname :: string
  cdict :: "string list"

type_synonym pytype = "pycls list"

definition object_cls :: pycls where
  "object_cls = \<lparr>cname = ''object'', cdict = [''__init__'', ''__eq__'', ''__hash__'']\<rparr>"

definition ABC_cls :: pycls where
  "ABC_cls = \<lparr>cname = ''ABC'', cdict = []\<rparr>"

definition dict_cls :: pycls where
  "dict_cls = \<lparr>cname = ''dict'',
     cdict = [''__getitem__'', ''__setitem__'', ''__contains__'', ''__iter__'', ''__or__'',
              ''keys'', ''values'', ''items'', ''get'', ''pop'', ''setdefault'', ''clear'',
              ''update'', ''copy'']\<rparr>"

definition list_cls :: pycls where
  "list_cls = \<lparr>cname = ''list'',
     cdict = [''__getitem__'', ''__setitem__'', ''__contains__'', ''__iter__'',
              ''append'', ''extend'', ''insert'', ''pop'', ''remove'', ''clear'', ''copy'']\<rparr>"

definition int_cls :: pycls where
  "int_cls = \<lparr>cname = ''int'', cdict = [''__add__'', ''__eq__'', ''__hash__'']\<rparr>"

definition str_cls :: pycls where
  "str_cls = \<lparr>cname = ''str'',
     cdict = [''__getitem__'', ''__iter__'', ''__eq__'', ''__hash__'', ''join'', ''format'']\<rparr>"

definition NoneType_cls :: pycls where
  "NoneType_cls = \<lparr>cname = ''NoneType'', cdict = [''__bool__'']\<rparr>"

definition Updater_cls :: pycls where
  "Updater_cls = \<lparr>cname = ''Updater'',
     cdict = [''update_item'', ''is_atomic'', ''is_updatable'']\<rparr>"

definition Updatable_cls :: pycls where
  "Updatable_cls = \<lparr>cname = ''Updatable'', cdict = [''__subclasshook__'', ''update'']\<rparr>"

definition State_cls :: pycls where
  "State_cls = \<lparr>cname = ''State'',
     cdict = [''update_item'', ''copy'', ''is_updatable'', ''__or__'']\<rparr>"

definition StateDict_cls :: pycls where
  "StateDict_cls = \<lparr>cname = ''StateDict'',
     cdict = [''__update__'', ''_update_item'', ''_add_item'', ''update'', ''copy'']\<rparr>"

definition View_cls :: pycls where
  "View_cls = \<lparr>cname = ''View'', cdict = [''_add_item'']\<rparr>"

definition History_cls :: pycls where
  "History_cls = \<lparr>cname = ''History'', cdict = [''update'', ''push'']\<rparr>"

text \<open>
  The linearisations of the module's class statements:
  \<open>class State(Updater, Updatable)\<close>, \<open>class StateDict(dict, State)\<close>,
  \<open>class View(StateDict)\<close>, \<open>class History(list, Updatable)\<close>.
\<close>

definition mro_State :: pytype where
  "mro_State = [State_cls, Updater_cls, Updatable_cls, ABC_cls, object_cls]"

definition mro_StateDict :: pytype where
  "mro_StateDict = StateDict_cls # dict_cls # mro_State"

definition mro_View :: pytype where
  "mro_View = View_cls # mro_StateDict"

definition mro_History :: pytype where
  "mro_History = [History_cls, list_cls, Updatable_cls, ABC_cls, object_cls]"

fun mro_of_dcls :: "dcls \<Rightarrow> pytype" where
  "mro_of_dcls PlainDict = [dict_cls, object_cls]"
| "mro_of_dcls StateDictC = mro_StateDict"
| "mro_of_dcls ViewC = mro_View"

fun mro_of_lcls :: "lcls \<Rightarrow> pytype" where
  "mro_of_lcls PlainList = [list_cls, object_cls]"
| "mro_of_lcls HistoryC = mro_History"

text \<open>\<open>type(v).__mro__\<close> of a value in the store.\<close>

definition type_of :: "heap \<Rightarrow> val \<Rightarrow> pytype" where
  "type_of h v =
     (case v of
        VAtom ANone \<Rightarrow> [NoneType_cls, object_cls]
      | VAtom (AInt i) \<Rightarrow> [int_cls, object_cls]
      | VAtom (AStr s) \<Rightarrow> [str_cls, object_cls]
      | VRef a \<Rightarrow>
          (case deref h a of
             Some (ODict c es) \<Rightarrow> mro_of_dcls c
           | Some (OList c xs) \<Rightarrow> mro_of_lcls c
           | None \<Rightarrow> [object_cls]))"

text \<open>
  An attribute of an instance that is not bound on the instance itself is taken from the
  first class of the \<open>__mro__\<close> that binds the name.
\<close>

definition mro_lookup :: "pytype \<Rightarrow> string \<Rightarrow> pycls option" where
  "mro_lookup mro name = find (\<lambda>Sup. name \<in> set (cdict Sup)) mro"

text \<open>
  \<open>super()\<close> inside a method of class \<open>c\<close>, called for a type with the given
  \<open>__mro__\<close>, looks a name up in the classes that follow \<open>c\<close> in that order.
\<close>

fun after_cls :: "pycls \<Rightarrow> pytype \<Rightarrow> pytype" where
  "after_cls c [] = []"
| "after_cls c (d # ds) = (if d = c then ds else after_cls c ds)"

definition super_lookup :: "pycls \<Rightarrow> pytype \<Rightarrow> string \<Rightarrow> pycls option" where
  "super_lookup c mro name = mro_lookup (after_cls c mro) name"

section \<open>The capability protocol\<close>

text \<open>
  \<open>Updatable.__subclasshook__(C)\<close>: for \<open>cls is Updatable\<close> it answers \<open>True\<close> when a
  class of \<open>C.__mro__\<close> binds \<open>update\<close> in its own \<open>__dict__\<close>, and
  \<open>NotImplemented\<close> (here \<open>None\<close>) otherwise, as it does for every other \<open>cls\<close>.
\<close>

definition Updatable_subclasshook :: "pycls \<Rightarrow> pytype \<Rightarrow> bool option" where
  "Updatable_subclasshook cls C =
     (if cls = Updatable_cls \<and> list_ex (\<lambda>Sup. ''update'' \<in> set (cdict Sup)) C
      then Some True else None)"

text \<open>
  \<open>issubclass(C, Updatable)\<close> goes through \<open>ABCMeta.__subclasscheck__\<close>: the hook first;
  when the hook answers \<open>NotImplemented\<close>, \<open>Updatable in C.__mro__\<close>, then the registry
  (the module registers no virtual subclass), then the same check for each class of
  \<open>Updatable.__subclasses__()\<close>, whose own hook answers \<open>NotImplemented\<close>: the module's
  \<open>State\<close> (with \<open>StateDict\<close> and \<open>View\<close> below it) and \<open>History\<close>.
\<close>

definition abc_in_mro :: "pycls list \<Rightarrow> pytype \<Rightarrow> bool" where
  "abc_in_mro cs C = list_ex (\<lambda>c. c \<in> set C) cs"

definition issubclass_Updatable :: "pytype \<Rightarrow> bool" where
  "issubclass_Updatable C =
     (case Updatable_subclasshook Updatable_cls C of
        Some ok \<Rightarrow> ok
      | None \<Rightarrow> abc_in_mro [Updatable_cls, State_cls, StateDict_cls, View_cls, History_cls] C)"

text \<open>\<open>State.is_updatable\<close> and \<open>Updater.is_atomic\<close> (for \<open>cls\<close> a \<open>State\<close> class).\<close>

definition is_updatable :: "pytype \<Rightarrow> bool" where
  "is_updatable C = issubclass_Updatable C"

definition is_atomic :: "pytype \<Rightarrow> bool" where
  "is_atomic C = (\<not> is_updatable C)"

text \<open>
  \<open>Updater.update_item\<close>, the abstract method's body: it raises \<open>TypeError\<close> for an
  atomic \<open>original\<close> and otherwise returns.
\<close>

definition Updater_update_item :: "heap \<Rightarrow> val \<Rightarrow> val \<Rightarrow> error + heap" where
  "Updater_update_item h original update =
     (if is_atomic (type_of h original) then Inl TypeError else Inr h)"

text \<open>\<open>Updatable.update\<close>, the abstract method's body: \<open>pass\<close>.\<close>

definition Updatable_update :: "heap \<Rightarrow> val \<Rightarrow> val \<Rightarrow> error + heap" where
  "Updatable_update h self other = Inr h"

text \<open>
  \<open>State.update_item(cls, first, second)\<close> is \<open>super().update(first, second)\<close>. In a
  class method \<open>super()\<close> is \<open>super(State, cls)\<close>, so \<open>update\<close> is looked up after
  \<open>State\<close> in \<open>cls.__mro__\<close> and comes back as the plain function (no instance to bind):
  for \<open>StateDict\<close> and \<open>View\<close> that is \<open>Updatable.update\<close> (lemma
  \<open>super_update_resolves\<close> below), called with \<open>first\<close> as its \<open>self\<close>.
\<close>

definition State_update_item :: "heap \<Rightarrow> val \<Rightarrow> val \<Rightarrow> error + heap" where
  "State_update_item h first second = Updatable_update h first second"

section \<open>Built-in dictionary and list operations\<close>

definition contains :: "entries \<Rightarrow> atom \<Rightarrow> bool" where
  "contains es k = (k \<in> set (map fst es))"

definition getitem :: "entries \<Rightarrow> atom \<Rightarrow> val option" where
  "getitem es k = map_of es k"

text \<open>\<open>d[k] = v\<close>: an existing key keeps its position, a new key goes to the end.\<close>

fun setitem :: "entries \<Rightarrow> atom \<Rightarrow> val \<Rightarrow> entries" where
  "setitem [] k v = [(k, v)]"
| "setitem ((k', v') # es) k v =
     (if k' = k then (k', v) # es else (k', v') # setitem es k v)"

text \<open>Merging the entries of a mapping into a dictionary, later entries overriding.\<close>

definition dict_merge :: "entries \<Rightarrow> entries \<Rightarrow> entries" where
  "dict_merge d es = foldl (\<lambda>d' (k, v). setitem d' k v) d es"

text \<open>
  Iterating a value: a dictionary yields its keys, a list its elements, a string its
  characters; \<open>None\<close> and integers are not iterable.
\<close>

definition iter_val :: "heap \<Rightarrow> val \<Rightarrow> error + val list" where
  "iter_val h v =
     (case v of
        VAtom ANone \<Rightarrow> Inl TypeError
      | VAtom (AInt i) \<Rightarrow> Inl TypeError
      | VAtom (AStr s) \<Rightarrow> Inr (map (\<lambda>c. VAtom (AStr [c])) s)
      | VRef a \<Rightarrow>
          (case deref h a of
             Some (ODict c es) \<Rightarrow> Inr (map (\<lambda>(k, v). VAtom k) es)
           | Some (OList c xs) \<Rightarrow> Inr xs
           | None \<Rightarrow> Inl TypeError))"

text \<open>
  A dictionary filled from a sequence of pairs: every element must itself iterate to
  exactly two items, the first a hashable key (containers are not hashable).
\<close>

fun merge_from_seq2 :: "heap \<Rightarrow> entries \<Rightarrow> val list \<Rightarrow> error + entries" where
  "merge_from_seq2 h d [] = Inr d"
| "merge_from_seq2 h d (item # items) =
     (case iter_val h item of
        Inl e \<Rightarrow> Inl TypeError
      | Inr kv \<Rightarrow>
          if length kv \<noteq> 2 then Inl ValueError
          else (case kv ! 0 of
                  VRef a \<Rightarrow> Inl TypeError
                | VAtom k \<Rightarrow> merge_from_seq2 h (setitem d k (kv ! 1)) items))"

text \<open>
  The argument handling shared by \<open>dict(arg)\<close> and \<open>dict.update(arg)\<close>: an argument with
  a \<open>keys\<close> method (a dictionary) is merged as a mapping, anything else is read as a
  sequence of pairs.
\<close>

definition dict_update_arg :: "heap \<Rightarrow> entries \<Rightarrow> val \<Rightarrow> error + entries" where
  "dict_update_arg h d arg =
     (case arg of
        VRef a \<Rightarrow>
          (case deref h a of
             Some (ODict c es) \<Rightarrow> Inr (dict_merge d es)
           | _ \<Rightarrow> (case iter_val h arg of Inl e \<Rightarrow> Inl e | Inr xs \<Rightarrow> merge_from_seq2 h d xs))
      | VAtom x \<Rightarrow>
          (case iter_val h arg of Inl e \<Rightarrow> Inl e | Inr xs \<Rightarrow> merge_from_seq2 h d xs))"

text \<open>\<open>cls(arg)\<close> for a dictionary class \<open>cls\<close>: a new object built from one argument.\<close>

definition new_dict :: "heap \<Rightarrow> dcls \<Rightarrow> val \<Rightarrow> error + heap \<times> addr" where
  "new_dict h c arg =
     (case dict_update_arg h [] arg of
        Inl e \<Rightarrow> Inl e
      | Inr es \<Rightarrow> Inr (alloc h (ODict c es)))"

text \<open>The built-in \<open>dict.update(arg)\<close> on the object at \<open>self\<close>.\<close>

definition dict_update :: "heap \<Rightarrow> addr \<Rightarrow> val \<Rightarrow> error + heap" where
  "dict_update h self arg =
     (case deref h self of
        Some (ODict c es) \<Rightarrow>
          (case dict_update_arg h es arg of
             Inl e \<Rightarrow> Inl e
           | Inr es' \<Rightarrow> Inr (h[self := ODict c es']))
      | _ \<Rightarrow> Inl AttributeError)"

text \<open>\<open>self[key]\<close>, \<open>key in self\<close> and \<open>self[key] = val\<close> on the object at \<open>self\<close>.\<close>

definition obj_getitem :: "heap \<Rightarrow> addr \<Rightarrow> atom \<Rightarrow> error + val" where
  "obj_getitem h self key =
     (case deref h self of
        Some (ODict c es) \<Rightarrow> (case getitem es key of None \<Rightarrow> Inl KeyError | Some v \<Rightarrow> Inr v)
      | _ \<Rightarrow> Inl TypeError)"

definition obj_contains :: "heap \<Rightarrow> addr \<Rightarrow> atom \<Rightarrow> bool" where
  "obj_contains h self key =
     (case deref h self of Some (ODict c es) \<Rightarrow> contains es key | _ \<Rightarrow> False)"

definition obj_setitem :: "heap \<Rightarrow> addr \<Rightarrow> atom \<Rightarrow> val \<Rightarrow> error + heap" where
  "obj_setitem h self key v =
     (case deref h self of
        Some (ODict c es) \<Rightarrow> Inr (h[self := ODict c (setitem es key v)])
      | _ \<Rightarrow> Inl TypeError)"

definition obj_keys :: "heap \<Rightarrow> addr \<Rightarrow> atom list" where
  "obj_keys h self = (case deref h self of Some (ODict c es) \<Rightarrow> map fst es | _ \<Rightarrow> [])"

section \<open>StateDict, View and History\<close>

text \<open>
  \<open>StateDict._update_item(self, key, val)\<close>: the call of \<open>update_item\<close> on the current
  value, with \<open>self[key] = val\<close> as the handler of a \<open>TypeError\<close>.
\<close>

definition StateDict_update_item :: "heap \<Rightarrow> addr \<Rightarrow> atom \<Rightarrow> val \<Rightarrow> error + heap" where
  "StateDict_update_item h self key v =
     (case obj_getitem h self key of
        Inl e \<Rightarrow> (if e = TypeError then obj_setitem h self key v else Inl e)
      | Inr cur \<Rightarrow>
          (case State_update_item h cur v of
             Inl e \<Rightarrow> (if e = TypeError then obj_setitem h self key v else Inl e)
           | Inr h' \<Rightarrow> Inr h'))"

text \<open>
  \<open>_add_item(self, key, val)\<close>, dispatched on the class of \<open>self\<close>:
  \<open>StateDict._add_item\<close> stores the value, \<open>View._add_item\<close> is \<open>pass\<close>.
\<close>

definition add_item :: "heap \<Rightarrow> addr \<Rightarrow> atom \<Rightarrow> val \<Rightarrow> error + heap" where
  "add_item h self key v =
     (case deref h self of
        Some (ODict StateDictC es) \<Rightarrow> obj_setitem h self key v
      | Some (ODict ViewC es) \<Rightarrow> Inr h
      | _ \<Rightarrow> Inl AttributeError)"

text \<open>
  \<open>StateDict.__update__(self, other)\<close>: the loop over the keys of \<open>other\<close>, each step
  reading \<open>other[key]\<close> and testing \<open>key in self\<close> in the current store.
\<close>

fun update_loop :: "heap \<Rightarrow> addr \<Rightarrow> addr \<Rightarrow> atom list \<Rightarrow> error + heap" where
  "update_loop h self other [] = Inr h"
| "update_loop h self other (key # keys) =
     (case obj_getitem h other key of
        Inl e \<Rightarrow> Inl e
      | Inr v \<Rightarrow>
          (case (if obj_contains h self key then StateDict_update_item h self key v
                 else add_item h self key v) of
             Inl e \<Rightarrow> Inl e
           | Inr h' \<Rightarrow> update_loop h' self other keys))"

definition StateDict_dunder_update :: "heap \<Rightarrow> addr \<Rightarrow> addr \<Rightarrow> error + heap" where
  "StateDict_dunder_update h self other = update_loop h self other (obj_keys h other)"

text \<open>
  \<open>StateDict.update(self, arg)\<close> with one positional argument: \<open>self.__class__(arg)\<close> is
  built first, then merged by \<open>__update__\<close>. The method exists on \<open>StateDict\<close> and
  \<open>View\<close> objects.
\<close>

definition StateDict_update :: "heap \<Rightarrow> addr \<Rightarrow> val \<Rightarrow> error + heap" where
  "StateDict_update h self arg =
     (case deref h self of
        Some (ODict c es) \<Rightarrow>
          (if c = PlainDict then Inl AttributeError
           else (case new_dict h c arg of
                   Inl e \<Rightarrow> Inl e
                 | Inr (h1, other) \<Rightarrow> StateDict_dunder_update h1 self other))
      | _ \<Rightarrow> Inl AttributeError)"

text \<open>
  \<open>StateDict.copy(self)\<close> is \<open>super().copy()\<close>, which is \<open>dict.copy\<close>: a new built-in
  \<open>dict\<close> with the same entries (the values are shared, not copied).
\<close>

definition StateDict_copy :: "heap \<Rightarrow> addr \<Rightarrow> error + heap \<times> addr" where
  "StateDict_copy h self =
     (case deref h self of
        Some (ODict c es) \<Rightarrow> Inr (alloc h (ODict PlainDict es))
      | _ \<Rightarrow> Inl AttributeError)"

text \<open>\<open>History.update(self, other)\<close> is \<open>self.extend(other)\<close>.\<close>

definition History_update :: "heap \<Rightarrow> addr \<Rightarrow> val \<Rightarrow> error + heap" where
  "History_update h self other =
     (case deref h self of
        Some (OList c xs) \<Rightarrow>
          (case iter_val h other of
             Inl e \<Rightarrow> Inl e
           | Inr ys \<Rightarrow> Inr (h[self := OList c (xs @ ys)]))
      | _ \<Rightarrow> Inl AttributeError)"

text \<open>\<open>History.push(self, item)\<close> is \<open>self.update(item)\<close>.\<close>

definition History_push :: "heap \<Rightarrow> addr \<Rightarrow> val \<Rightarrow> error + heap" where
  "History_push h self item = History_update h self item"

text \<open>
  \<open>x.update(arg)\<close>, resolved on the class of the object at \<open>x\<close>: the built-in method for
  a \<open>dict\<close>, \<open>StateDict.update\<close> for \<open>StateDict\<close> and \<open>View\<close>, \<open>History.update\<close> for
  \<open>History\<close>; a built-in \<open>list\<close> has no such method.
\<close>

definition call_update :: "heap \<Rightarrow> addr \<Rightarrow> val \<Rightarrow> error + heap" where
  "call_update h x arg =
     (case deref h x of
        Some (ODict PlainDict es) \<Rightarrow> dict_update h x arg
      | Some (ODict c es) \<Rightarrow> StateDict_update h x arg
      | Some (OList HistoryC xs) \<Rightarrow> History_update h x arg
      | _ \<Rightarrow> Inl AttributeError)"

text \<open>
  \<open>State.__or__(self, other)\<close>: \<open>copy = self.copy(); copy.update(other); return copy\<close>.
\<close>

definition State_or :: "heap \<Rightarrow> addr \<Rightarrow> val \<Rightarrow> error + heap \<times> addr" where
  "State_or h self other =
     (case StateDict_copy h self of
        Inl e \<Rightarrow> Inl e
      | Inr (h1, copy) \<Rightarrow>
          (case call_update h1 copy other of
             Inl e \<Rightarrow> Inl e
           | Inr h2 \<Rightarrow> Inr (h2, copy)))"

text \<open>
  The built-in \<open>dict.__or__(self, other)\<close> of interpreters from version 3.9 on, where
  \<open>dict\<close> binds \<open>__or__\<close> and precedes \<open>State\<close> in the \<open>__mro__\<close> of \<open>StateDict\<close>:
  for two dictionaries a new built-in \<open>dict\<close>, the copy of \<open>self\<close> updated with \<open>other\<close>;
  \<open>NotImplemented\<close>, hence a \<open>TypeError\<close>, for any other operand.
\<close>

definition dict_or :: "heap \<Rightarrow> addr \<Rightarrow> val \<Rightarrow> error + heap \<times> addr" where
  "dict_or h self other =
     (case deref h self of
        Some (ODict c es) \<Rightarrow>
          (case other of
             VAtom x \<Rightarrow> Inl TypeError
           | VRef b \<Rightarrow>
               (case deref h b of
                  Some (ODict cb eb) \<Rightarrow>
                    (case dict_update_arg h es other of
                       Inl e \<Rightarrow> Inl e
                     | Inr es' \<Rightarrow> Inr (alloc h (ODict PlainDict es')))
                | _ \<Rightarrow> Inl TypeError))
      | _ \<Rightarrow> Inl AttributeError)"

section \<open>Results of calls\<close>

text \<open>
  The value a call expression yields. \<open>update\<close> and \<open>push\<close> have no \<open>return\<close> statement,
  so a call that does not raise yields \<open>None\<close>; \<open>__or__\<close> ends in \<open>return copy\<close> and
  yields the reference to the copy.
\<close>

definition returns_None :: "error + heap \<Rightarrow> error + heap \<times> val" where
  "returns_None r = (case r of Inl e \<Rightarrow> Inl e | Inr h \<Rightarrow> Inr (h, VAtom ANone))"

definition returns_ref :: "error + heap \<times> addr \<Rightarrow> error + heap \<times> val" where
  "returns_ref r = (case r of Inl e \<Rightarrow> Inl e | Inr (h, c) \<Rightarrow> Inr (h, VRef c))"

text \<open>
  A value is a new container of a call that took the store \<open>h\<close> to \<open>h'\<close> when it refers to
  an object of \<open>h'\<close> at an address that \<open>h\<close> had not allocated.
\<close>

definition new_container :: "heap \<Rightarrow> heap \<Rightarrow> val \<Rightarrow> bool" where
  "new_container h h' v =
     (case v of
        VAtom x \<Rightarrow> False
      | VRef c \<Rightarrow> deref h c = None \<and> deref h' c \<noteq> None)"

section \<open>Well-formed types\<close>

text \<open>
  A class of the module occurs in an \<open>__mro__\<close> only together with the bases of its class
  statement: the linearisation of a type holds all its ancestors.
\<close>

definition module_bases :: "(pycls \<times> pycls list) list" where
  "module_bases =
     [(State_cls, [Updater_cls, Updatable_cls]),
      (StateDict_cls, [dict_cls, State_cls]),
      (View_cls, [StateDict_cls]),
      (History_cls, [list_cls, Updatable_cls])]"

definition mro_closed :: "pytype \<Rightarrow> bool" where
  "mro_closed C =
     list_all (\<lambda>(c, bs). c \<in> set C \<longrightarrow> list_all (\<lambda>b. b \<in> set C) bs) module_bases"

section \<open>Example stores\<close>

text \<open>
  The nested example: \<open>{"a": {"b": {"c": 1}}}\<close> as \<open>StateDict\<close> objects at addresses
  0 to 2, and \<open>{"a": {"b": {"c": 2, "d": 3}}}\<close> as dictionaries at addresses 3 to 5.
\<close>

definition nested_store :: heap where
  "nested_store =
     [ODict StateDictC [(AStr ''a'', VRef 1)],
      ODict StateDictC [(AStr ''b'', VRef 2)],
      ODict StateDictC [(AStr ''c'', VAtom (AInt 1))],
      ODict PlainDict [(AStr ''a'', VRef 4)],
      ODict PlainDict [(AStr ''b'', VRef 5)],
      ODict PlainDict [(AStr ''c'', VAtom (AInt 2)), (AStr ''d'', VAtom (AInt 3))]]"

text \<open>\<open>StateDict({"x": 1})\<close> at address 0 and \<open>{"x": 2}\<close> at address 1.\<close>

definition atomic_store :: heap where
  "atomic_store =
     [ODict StateDictC [(AStr ''x'', VAtom (AInt 1))],
      ODict PlainDict [(AStr ''x'', VAtom (AInt 2))]]"

text \<open>The dictionaries \<open>{"a": 1, "b": 2}\<close> and \<open>{"a": 10, "c": 99}\<close>.\<close>

definition scenario_store :: heap where
  "scenario_store =
     [ODict PlainDict [(AStr ''a'', VAtom (AInt 1)), (AStr ''b'', VAtom (AInt 2))],
      ODict PlainDict [(AStr ''a'', VAtom (AInt 10)), (AStr ''c'', VAtom (AInt 99))]]"

text \<open>A \<open>View\<close> over \<open>{"a": 1, "b": 2}\<close> and the dictionary \<open>{"a": 10, "c": 99}\<close>.\<close>

definition frozen_store :: heap where
  "frozen_store =
     [ODict ViewC [(AStr ''a'', VAtom (AInt 1)), (AStr ''b'', VAtom (AInt 2))],
      ODict PlainDict [(AStr ''a'', VAtom (AInt 10)), (AStr ''c'', VAtom (AInt 99))]]"

text \<open>
  A \<open>StateDict\<close> \<open>{"x": 1, "y": <object 1>}\<close>, the \<open>StateDict\<close> \<open>{"z": 0}\<close> it holds, and
  an incoming dictionary \<open>{"x": <object 1>, "y": None, "w": "s"}\<close>.
\<close>

definition mixed_store :: heap where
  "mixed_store =
     [ODict StateDictC [(AStr ''x'', VAtom (AInt 1)), (AStr ''y'', VRef 1)],
      ODict StateDictC [(AStr ''z'', VAtom (AInt 0))],
      ODict PlainDict [(AStr ''x'', VRef 1), (AStr ''y'', VAtom ANone),
                       (AStr ''w'', VAtom (AStr ''s''))]]"

text \<open>A \<open>StateDict\<close> \<open>{"k": 7}\<close> and an empty \<open>StateDict\<close>.\<close>

definition with_empty_store :: heap where
  "with_empty_store =
     [ODict StateDictC [(AStr ''k'', VAtom (AInt 7))], ODict StateDictC []]"

text \<open>The \<open>History\<close> \<open>[1, 2]\<close> at address 0 and the list \<open>[5]\<close> at address 1.\<close>

definition log_store :: heap where
  "log_store =
     [OList HistoryC [VAtom (AInt 1), VAtom (AInt 2)], OList PlainList [VAtom (AInt 5)]]"

text \<open>
  \<open>StateDict({"x": 1})\<close> at address 0, the incoming \<open>{"x": {"y": 2}}\<close> at address 1 and its
  nested dictionary at address 2.
\<close>

definition overwrite_store :: heap where
  "overwrite_store =
     [ODict StateDictC [(AStr ''x'', VAtom (AInt 1))],
      ODict PlainDict [(AStr ''x'', VRef 2)],
      ODict PlainDict [(AStr ''y'', VAtom (AInt 2))]]"

text \<open>
  \<open>StateDict({"x": 1})\<close> at address 0, \<open>{"x": 2}\<close> at address 1 and the \<open>History\<close>
  \<open>[1, 2]\<close> at address 2.
\<close>

definition combinators_store :: heap where
  "combinators_store =
     [ODict StateDictC [(AStr ''x'', VAtom (AInt 1))],
      ODict PlainDict [(AStr ''x'', VAtom (AInt 2))],
      OList HistoryC [VAtom (AInt 1), VAtom (AInt 2)]]"

section \<open>Store and dictionary lemmas\<close>

lemma deref_Some_iff: "deref h a = Some ob \<longleftrightarrow> a < length h \<and> h ! a = ob"
  by (auto simp: deref_def)

lemma map_of_setitem: "map_of (setitem es k v) = (map_of es)(k \<mapsto> v)"
  by (induction es) (auto simp: fun_upd_twist)

lemma keys_setitem: "fst ` set (setitem es k v) = insert k (fst ` set es)"
proof (induction es)
  case Nil
  show ?case by simp
next
  case (Cons e es)
  obtain k' v' where e: "e = (k', v')" by (cases e)
  show ?case
  proof (cases "k' = k")
    case True
    then show ?thesis using e by auto
  next
    case False
    then show ?thesis using e Cons.IH by auto
  qed
qed

lemma keys_dict_merge:
  "fst ` set (dict_merge d es) = fst ` set d \<union> fst ` set es"
  unfolding dict_merge_def
proof (induction es arbitrary: d)
  case Nil
  show ?case by simp
next
  case (Cons e es)
  obtain k v where e: "e = (k, v)" by (cases e)
  have "fst ` set (foldl (\<lambda>d' (k, v). setitem d' k v) d (e # es))
      = fst ` set (setitem d k v) \<union> fst ` set es"
    using e Cons.IH[of "setitem d k v"] by simp
  also have "\<dots> = fst ` set d \<union> fst ` set (e # es)"
    using e by (simp add: keys_setitem)
  finally show ?case .
qed

lemma map_of_dict_merge:
  "distinct (map fst es) \<Longrightarrow> map_of (dict_merge d es) = map_of d ++ map_of es"
  unfolding dict_merge_def
proof (induction es arbitrary: d)
  case Nil
  then show ?case by simp
next
  case (Cons e es)
  obtain k v where e: "e = (k, v)" by (cases e)
  from Cons.prems e have k: "k \<notin> fst ` set es" and d: "distinct (map fst es)" by auto
  have "map_of es k = None" using k by (simp add: map_of_eq_None_iff)
  then have swap: "(map_of d)(k \<mapsto> v) ++ map_of es = map_of d ++ (map_of es)(k \<mapsto> v)"
    by (auto simp: map_add_def fun_eq_iff split: option.splits)
  have "map_of (foldl (\<lambda>d' (k, v). setitem d' k v) d (e # es))
      = map_of (foldl (\<lambda>d' (k, v). setitem d' k v) (setitem d k v) es)"
    using e by simp
  also have "\<dots> = map_of (setitem d k v) ++ map_of es" by (rule Cons.IH[OF d])
  also have "\<dots> = (map_of d)(k \<mapsto> v) ++ map_of es" by (simp only: map_of_setitem)
  also have "\<dots> = map_of d ++ (map_of es)(k \<mapsto> v)" by (rule swap)
  also have "\<dots> = map_of d ++ map_of (e # es)" using e by simp
  finally show ?case .
qed

lemma getitem_in_keys: "k \<in> set (map fst es) \<Longrightarrow> \<exists>v. getitem es k = Some v"
  unfolding getitem_def by (metis list.set_map map_of_eq_None_iff not_Some_eq)

lemma StateDict_update_item_present:
  "obj_contains h self key \<Longrightarrow> StateDict_update_item h self key v = Inr h"
  unfolding obj_contains_def StateDict_update_item_def obj_getitem_def contains_def
    State_update_item_def Updatable_update_def
  using getitem_in_keys
  by (fastforce split: option.splits obj.splits)

lemma update_loop_result:
  assumes "self < length h" "other < length h" "self \<noteq> other"
    and "h ! other = ODict co eo" "h ! self = ODict c es" "c \<noteq> PlainDict"
    and "set keys \<subseteq> set (map fst eo)"
  shows "\<exists>es'. update_loop h self other keys = Inr (h[self := ODict c es'])
           \<and> (c = ViewC \<longrightarrow> es' = es)
           \<and> (\<forall>k. k \<in> set (map fst es) \<longrightarrow> map_of es' k = map_of es k)
           \<and> set (map fst es) \<subseteq> set (map fst es')"
  using assms
proof (induction keys arbitrary: h es)
  case Nil
  have "h[self := ODict c es] = h" using Nil by (metis list_update_id)
  then show ?case by (intro exI[of _ es]) simp
next
  case (Cons key keys)
  from Cons.prems obtain v where v: "getitem eo key = Some v"
    using getitem_in_keys by fastforce
  then have gv: "obj_getitem h other key = Inr v"
    using Cons.prems by (simp add: obj_getitem_def deref_def)
  have keys: "set keys \<subseteq> set (map fst eo)" using Cons.prems by simp
  show ?case
  proof (cases "obj_contains h self key \<or> c = ViewC")
    case True
    then have step: "(if obj_contains h self key then StateDict_update_item h self key v
                 else add_item h self key v) = Inr h"
      using Cons.prems by (auto simp: StateDict_update_item_present add_item_def deref_def)
    from Cons.IH[OF Cons.prems(1-6) keys] show ?thesis
      using gv step by simp
  next
    case False
    then have nc: "\<not> obj_contains h self key" and c: "c = StateDictC"
      using Cons.prems(6) by (auto intro: dcls.exhaust)
    let ?h = "h[self := ODict c (setitem es key v)]"
    have step: "(if obj_contains h self key then StateDict_update_item h self key v
                 else add_item h self key v) = Inr ?h"
      using nc c Cons.prems by (simp add: add_item_def obj_setitem_def deref_def)
    have knew: "key \<notin> set (map fst es)"
      using nc Cons.prems by (simp add: obj_contains_def deref_def contains_def)
    have p: "self < length ?h" "other < length ?h" "?h ! other = ODict co eo"
      "?h ! self = ODict c (setitem es key v)"
      using Cons.prems by simp_all
    from Cons.IH[OF p(1,2) Cons.prems(3) p(3,4) Cons.prems(6) keys]
    obtain es' where es': "update_loop ?h self other keys = Inr (?h[self := ODict c es'])"
      "\<forall>k. k \<in> set (map fst (setitem es key v)) \<longrightarrow> map_of es' k = map_of (setitem es key v) k"
      "set (map fst (setitem es key v)) \<subseteq> set (map fst es')"
      by blast
    have "update_loop h self other (key # keys) = Inr (h[self := ODict c es'])"
      using gv step es'(1) by simp
    moreover have "\<forall>k. k \<in> set (map fst es) \<longrightarrow> map_of es' k = map_of es k"
    proof (intro allI impI)
      fix k assume k: "k \<in> set (map fst es)"
      then have "k \<noteq> key" using knew by auto
      moreover have "k \<in> set (map fst (setitem es key v))" using k by (simp add: keys_setitem)
      ultimately show "map_of es' k = map_of es k" using es'(2) by (simp add: map_of_setitem)
    qed
    moreover have "set (map fst es) \<subseteq> set (map fst es')"
      using es'(3) by (auto simp: keys_setitem)
    ultimately show ?thesis using c by blast
  qed
qed


section \<open>Method resolution facts\<close>

text \<open>
  The lookups behind the calls of the model. \<open>self.__class__.update_item\<close> is
  \<open>State.update_item\<close>, and its \<open>super().update\<close> is \<open>Updatable.update\<close>; the
  \<open>super().copy\<close> of \<open>StateDict.copy\<close> is \<open>dict.copy\<close>.
\<close>

lemma update_item_resolves:
  "mro_lookup mro_StateDict ''update_item'' = Some State_cls"
  "mro_lookup mro_View ''update_item'' = Some State_cls"
  by (simp_all add: mro_lookup_def mro_View_def mro_StateDict_def mro_State_def
      State_cls_def StateDict_cls_def View_cls_def dict_cls_def)

lemma super_update_resolves:
  "super_lookup State_cls mro_StateDict ''update'' = Some Updatable_cls"
  "super_lookup State_cls mro_View ''update'' = Some Updatable_cls"
  by (simp_all add: super_lookup_def mro_lookup_def mro_View_def mro_StateDict_def
      mro_State_def State_cls_def StateDict_cls_def View_cls_def dict_cls_def
      Updater_cls_def Updatable_cls_def)

lemma super_copy_resolves:
  "super_lookup StateDict_cls mro_StateDict ''copy'' = Some dict_cls"
  "super_lookup StateDict_cls mro_View ''copy'' = Some dict_cls"
  by (simp_all add: super_lookup_def mro_lookup_def mro_View_def mro_StateDict_def
      StateDict_cls_def View_cls_def dict_cls_def)

text \<open>
  The methods called on containers: \<open>update\<close> and \<open>copy\<close> of a \<open>StateDict\<close> or a
  \<open>View\<close> are those of \<open>StateDict\<close>, \<open>_add_item\<close> of a \<open>View\<close> is its own,
  \<open>update\<close> of a built-in \<open>dict\<close> is the built-in one, and \<open>update\<close> of a
  \<open>History\<close> is \<open>History.update\<close>.
\<close>

lemma method_resolves:
  "mro_lookup mro_StateDict ''update'' = Some StateDict_cls"
  "mro_lookup mro_View ''update'' = Some StateDict_cls"
  "mro_lookup mro_StateDict ''copy'' = Some StateDict_cls"
  "mro_lookup mro_View ''copy'' = Some StateDict_cls"
  "mro_lookup mro_StateDict ''_add_item'' = Some StateDict_cls"
  "mro_lookup mro_View ''_add_item'' = Some View_cls"
  "mro_lookup [dict_cls, object_cls] ''update'' = Some dict_cls"
  "mro_lookup mro_History ''update'' = Some History_cls"
  by (simp_all add: mro_lookup_def mro_View_def mro_StateDict_def mro_History_def
      StateDict_cls_def View_cls_def dict_cls_def History_cls_def)


section \<open>The merge on mappings\<close>

lemma new_dict_mapping:
  assumes "deref h b = Some (ODict cb eb)"
  shows "new_dict h c (VRef b) = Inr (h @ [ODict c (dict_merge [] eb)], length h)"
  using assms by (simp add: new_dict_def dict_update_arg_def alloc_def)

lemma StateDict_update_mapping:
  assumes a: "deref h a = Some (ODict c es)" and c: "c \<noteq> PlainDict"
    and b: "deref h b = Some (ODict cb eb)"
  shows "\<exists>es'. StateDict_update h a (VRef b)
            = Inr (h[a := ODict c es'] @ [ODict c (dict_merge [] eb)])
          \<and> (c = ViewC \<longrightarrow> es' = es)
          \<and> (\<forall>k. k \<in> set (map fst es) \<longrightarrow> map_of es' k = map_of es k)
          \<and> set (map fst es) \<subseteq> set (map fst es')"
proof -
  let ?eo = "dict_merge [] eb"
  let ?h1 = "h @ [ODict c ?eo]"
  from a have al: "a < length h" and ha: "h ! a = ODict c es"
    by (simp_all add: deref_Some_iff)
  have p: "a < length ?h1" "length h < length ?h1" "a \<noteq> length h"
    "?h1 ! length h = ODict c ?eo" "?h1 ! a = ODict c es"
    using al ha by (simp_all add: nth_append)
  have keys: "obj_keys ?h1 (length h) = map fst ?eo"
    by (simp add: obj_keys_def deref_def)
  have sub: "set (map fst ?eo) \<subseteq> set (map fst ?eo)" by simp
  from update_loop_result[OF p(1,2,3,4,5) c sub]
  obtain es' where es': "update_loop ?h1 a (length h) (map fst ?eo) = Inr (?h1[a := ODict c es'])"
    "c = ViewC \<longrightarrow> es' = es"
    "\<forall>k. k \<in> set (map fst es) \<longrightarrow> map_of es' k = map_of es k"
    "set (map fst es) \<subseteq> set (map fst es')"
    by blast
  have "StateDict_update h a (VRef b) = update_loop ?h1 a (length h) (map fst ?eo)"
    using a c keys by (simp add: StateDict_update_def new_dict_mapping[OF b]
        StateDict_dunder_update_def)
  moreover have "?h1[a := ODict c es'] = h[a := ODict c es'] @ [ODict c ?eo]"
    using al by (simp add: list_update_append)
  ultimately show ?thesis using es' by auto
qed

text \<open>
  Claim C2. For a frozen-key state \<open>F\<close> (a \<open>View\<close>) and a mapping \<open>other\<close>,
  \<open>F.update(other)\<close> returns and the keys of \<open>F\<close> afterwards are the keys of \<open>F\<close>
  before, in the same order: no key is added or removed, whatever keys \<open>other\<close> has.
\<close>

theorem View_update_keeps_keys:
  assumes "deref h F = Some (ODict ViewC es)" and "deref h b = Some (ODict cb eb)"
  shows "\<exists>h'. StateDict_update h F (VRef b) = Inr h' \<and> obj_keys h' F = obj_keys h F"
proof -
  from StateDict_update_mapping[OF assms(1) _ assms(2)]
  have r: "StateDict_update h F (VRef b)
             = Inr (h[F := ODict ViewC es] @ [ODict ViewC (dict_merge [] eb)])"
    by auto
  from assms(1) have "F < length h" "h ! F = ODict ViewC es"
    by (simp_all add: deref_Some_iff)
  then have "obj_keys (h[F := ODict ViewC es] @ [ODict ViewC (dict_merge [] eb)]) F
               = obj_keys h F"
    by (simp add: obj_keys_def deref_def nth_append)
  with r show ?thesis by simp
qed

theorem View_update_keeps_keys_witness:
  "deref frozen_store 0
     = Some (ODict ViewC [(AStr ''a'', VAtom (AInt 1)), (AStr ''b'', VAtom (AInt 2))])
   \<and> deref frozen_store 1
     = Some (ODict PlainDict [(AStr ''a'', VAtom (AInt 10)), (AStr ''c'', VAtom (AInt 99))])
   \<and> (\<exists>h'. StateDict_update frozen_store 0 (VRef 1) = Inr h'
         \<and> obj_keys h' 0 = obj_keys frozen_store 0)"
proof -
  have 1: "deref frozen_store 0
     = Some (ODict ViewC [(AStr ''a'', VAtom (AInt 1)), (AStr ''b'', VAtom (AInt 2))])"
    by (simp add: frozen_store_def deref_def)
  have 2: "deref frozen_store 1
     = Some (ODict PlainDict [(AStr ''a'', VAtom (AInt 10)), (AStr ''c'', VAtom (AInt 99))])"
    by (simp add: frozen_store_def deref_def)
  from View_update_keeps_keys[OF 1 2] 1 2 show ?thesis by blast
qed

text \<open>
  For a mapping state \<open>self\<close> (a \<open>StateDict\<close> or a \<open>View\<close>) and a mapping \<open>other\<close> whose
  values are atoms or containers of any kind, \<open>self.update(other)\<close> returns normally: no
  exception reaches the caller.
\<close>

lemma StateDict_update_no_exception:
  assumes "deref h a = Some (ODict c es)" and "c \<noteq> PlainDict"
    and "deref h b = Some (ODict cb eb)"
  shows "\<exists>h'. StateDict_update h a (VRef b) = Inr h'"
  using StateDict_update_mapping[OF assms] by blast

lemma StateDict_update_no_exception_example:
  "deref mixed_store 0
     = Some (ODict StateDictC [(AStr ''x'', VAtom (AInt 1)), (AStr ''y'', VRef 1)])
   \<and> StateDictC \<noteq> PlainDict
   \<and> deref mixed_store 2
     = Some (ODict PlainDict [(AStr ''x'', VRef 1), (AStr ''y'', VAtom ANone),
                              (AStr ''w'', VAtom (AStr ''s''))])
   \<and> (\<exists>h'. StateDict_update mixed_store 0 (VRef 2) = Inr h')"
proof -
  have 1: "deref mixed_store 0
     = Some (ODict StateDictC [(AStr ''x'', VAtom (AInt 1)), (AStr ''y'', VRef 1)])"
    by (simp add: mixed_store_def deref_def)
  have 2: "StateDictC \<noteq> PlainDict" by simp
  have 3: "deref mixed_store 2
     = Some (ODict PlainDict [(AStr ''x'', VRef 1), (AStr ''y'', VAtom ANone),
                              (AStr ''w'', VAtom (AStr ''s''))])"
    by (simp add: mixed_store_def deref_def)
  from StateDict_update_no_exception[OF 1 2 3] 1 2 3 show ?thesis by blast
qed

lemma StateDict_copy_dict:
  "deref h a = Some (ODict c es) \<Longrightarrow>
     StateDict_copy h a = Inr (h @ [ODict PlainDict es], length h)"
  by (simp add: StateDict_copy_def alloc_def)

lemma State_or_mapping:
  assumes a: "deref h a = Some (ODict ca ea)" and b: "deref h b = Some (ODict cb eb)"
  shows "State_or h a (VRef b) = Inr (h @ [ODict PlainDict (dict_merge ea eb)], length h)"
proof -
  let ?h1 = "h @ [ODict PlainDict ea]"
  from b have bl: "b < length h" and hb: "h ! b = ODict cb eb"
    by (simp_all add: deref_Some_iff)
  have d1: "deref ?h1 (length h) = Some (ODict PlainDict ea)" by (simp add: deref_def)
  have d2: "deref ?h1 b = Some (ODict cb eb)" using bl hb by (simp add: deref_def nth_append)
  have "call_update ?h1 (length h) (VRef b) = Inr (?h1[length h := ODict PlainDict (dict_merge ea eb)])"
    using d1 d2 by (simp add: call_update_def dict_update_def dict_update_arg_def)
  then show ?thesis
    by (simp add: State_or_def StateDict_copy_dict[OF a])
qed

text \<open>
  Where the interpreter's \<open>dict\<close> has its own \<open>|\<close>, that operator is the one found for a
  \<open>StateDict\<close>; on a dictionary operand it computes what \<open>State.__or__\<close> computes.
\<close>

lemma or_resolves: "mro_lookup mro_StateDict ''__or__'' = Some dict_cls"
  by (simp add: mro_lookup_def mro_StateDict_def StateDict_cls_def dict_cls_def)

lemma dict_or_mapping:
  assumes "deref h a = Some (ODict ca ea)" and "deref h b = Some (ODict cb eb)"
  shows "dict_or h a (VRef b) = State_or h a (VRef b)"
  using assms State_or_mapping[OF assms]
  by (simp add: dict_or_def dict_update_arg_def alloc_def)

text \<open>
  Claim C5. For mapping states \<open>A\<close> and \<open>B\<close>, \<open>A | B\<close> returns a new container: the
  value is a reference to an address that was not allocated before, and the object there
  is the copy of \<open>A\<close> updated with \<open>B\<close>. Every object of the store before the call,
  \<open>A\<close> and \<open>B\<close> among them, is the same after it. It is the only combinator that
  returns a new container: \<open>A.update(B)\<close> yields \<open>None\<close>, and so do \<open>update\<close> and
  \<open>push\<close> of a log, which allocate nothing and change their receiver in place.
\<close>

theorem State_or_leaves_operands:
  assumes "deref h a = Some (ODict ca ea)" and "ca \<noteq> PlainDict"
    and "deref h b = Some (ODict cb eb)"
  shows "(\<exists>h' c. State_or h a (VRef b) = Inr (h', c) \<and> deref h c = None
            \<and> deref h' c = Some (ODict PlainDict (dict_merge ea eb))
            \<and> take (length h) h' = h \<and> deref h' a = deref h a \<and> deref h' b = deref h b
            \<and> returns_ref (State_or h a (VRef b)) = Inr (h', VRef c)
            \<and> new_container h h' (VRef c))
       \<and> (\<exists>h''. returns_None (StateDict_update h a (VRef b)) = Inr (h'', VAtom ANone)
            \<and> \<not> new_container h h'' (VAtom ANone))
       \<and> (\<forall>l x h'' r. returns_None (History_update h l x) = Inr (h'', r)
            \<longrightarrow> \<not> new_container h h'' r \<and> length h'' = length h)
       \<and> (\<forall>l x h'' r. returns_None (History_push h l x) = Inr (h'', r)
            \<longrightarrow> \<not> new_container h h'' r \<and> length h'' = length h)"
proof (intro conjI)
  from assms have "a < length h" "b < length h" by (simp_all add: deref_Some_iff)
  then show "\<exists>h' c. State_or h a (VRef b) = Inr (h', c) \<and> deref h c = None
            \<and> deref h' c = Some (ODict PlainDict (dict_merge ea eb))
            \<and> take (length h) h' = h \<and> deref h' a = deref h a \<and> deref h' b = deref h b
            \<and> returns_ref (State_or h a (VRef b)) = Inr (h', VRef c)
            \<and> new_container h h' (VRef c)"
    using State_or_mapping[OF assms(1,3)]
    by (simp add: deref_def nth_append returns_ref_def new_container_def)
next
  from StateDict_update_mapping[OF assms] obtain h'' where
    "StateDict_update h a (VRef b) = Inr h''" by blast
  then show "\<exists>h''. returns_None (StateDict_update h a (VRef b)) = Inr (h'', VAtom ANone)
            \<and> \<not> new_container h h'' (VAtom ANone)"
    by (simp add: returns_None_def new_container_def)
next
  show "\<forall>l x h'' r. returns_None (History_update h l x) = Inr (h'', r)
            \<longrightarrow> \<not> new_container h h'' r \<and> length h'' = length h"
    by (auto simp: returns_None_def History_update_def new_container_def
        split: sum.splits option.splits obj.splits)
next
  show "\<forall>l x h'' r. returns_None (History_push h l x) = Inr (h'', r)
            \<longrightarrow> \<not> new_container h h'' r \<and> length h'' = length h"
    by (auto simp: returns_None_def History_push_def History_update_def new_container_def
        split: sum.splits option.splits obj.splits)
qed

theorem State_or_leaves_operands_witness:
  "deref combinators_store 0 = Some (ODict StateDictC [(AStr ''x'', VAtom (AInt 1))])
   \<and> StateDictC \<noteq> PlainDict
   \<and> deref combinators_store 1 = Some (ODict PlainDict [(AStr ''x'', VAtom (AInt 2))])
   \<and> (\<exists>h' c. State_or combinators_store 0 (VRef 1) = Inr (h', c)
         \<and> deref combinators_store c = None
         \<and> deref h' c = Some (ODict PlainDict [(AStr ''x'', VAtom (AInt 2))])
         \<and> take (length combinators_store) h' = combinators_store
         \<and> deref h' 0 = deref combinators_store 0 \<and> deref h' 1 = deref combinators_store 1
         \<and> new_container combinators_store h' (VRef c))
   \<and> (\<exists>h''. returns_None (StateDict_update combinators_store 0 (VRef 1))
               = Inr (h'', VAtom ANone))
   \<and> returns_None (History_push combinators_store 2 (VAtom (AStr ''ab'')))
       = Inr ([ODict StateDictC [(AStr ''x'', VAtom (AInt 1))],
               ODict PlainDict [(AStr ''x'', VAtom (AInt 2))],
               OList HistoryC [VAtom (AInt 1), VAtom (AInt 2), VAtom (AStr ''a''),
                               VAtom (AStr ''b'')]], VAtom ANone)
   \<and> \<not> new_container combinators_store
         [ODict StateDictC [(AStr ''x'', VAtom (AInt 1))],
          ODict PlainDict [(AStr ''x'', VAtom (AInt 2))],
          OList HistoryC [VAtom (AInt 1), VAtom (AInt 2), VAtom (AStr ''a''),
                          VAtom (AStr ''b'')]] (VAtom ANone)"
proof -
  have 1: "deref combinators_store 0 = Some (ODict StateDictC [(AStr ''x'', VAtom (AInt 1))])"
    by (simp add: combinators_store_def deref_def)
  have 2: "StateDictC \<noteq> PlainDict" by simp
  have 3: "deref combinators_store 1 = Some (ODict PlainDict [(AStr ''x'', VAtom (AInt 2))])"
    by (simp add: combinators_store_def deref_def)
  have m: "dict_merge [(AStr ''x'', VAtom (AInt 1))] [(AStr ''x'', VAtom (AInt 2))]
             = [(AStr ''x'', VAtom (AInt 2))]"
    by (simp add: dict_merge_def)
  have p: "returns_None (History_push combinators_store 2 (VAtom (AStr ''ab'')))
       = Inr ([ODict StateDictC [(AStr ''x'', VAtom (AInt 1))],
               ODict PlainDict [(AStr ''x'', VAtom (AInt 2))],
               OList HistoryC [VAtom (AInt 1), VAtom (AInt 2), VAtom (AStr ''a''),
                               VAtom (AStr ''b'')]], VAtom ANone)"
    by (simp add: combinators_store_def returns_None_def History_push_def
        History_update_def iter_val_def deref_def)
  note t = State_or_leaves_operands[OF 1 2 3, unfolded m]
  from t have a: "\<exists>h' c. State_or combinators_store 0 (VRef 1) = Inr (h', c)
         \<and> deref combinators_store c = None
         \<and> deref h' c = Some (ODict PlainDict [(AStr ''x'', VAtom (AInt 2))])
         \<and> take (length combinators_store) h' = combinators_store
         \<and> deref h' 0 = deref combinators_store 0 \<and> deref h' 1 = deref combinators_store 1
         \<and> new_container combinators_store h' (VRef c)"
    by blast
  from t have b: "\<exists>h''. returns_None (StateDict_update combinators_store 0 (VRef 1))
               = Inr (h'', VAtom ANone)"
    by blast
  from t p have c: "\<not> new_container combinators_store
         [ODict StateDictC [(AStr ''x'', VAtom (AInt 1))],
          ODict PlainDict [(AStr ''x'', VAtom (AInt 2))],
          OList HistoryC [VAtom (AInt 1), VAtom (AInt 2), VAtom (AStr ''a''),
                          VAtom (AStr ''b'')]] (VAtom ANone)"
    by blast
  show ?thesis using 1 2 3 a b p c by blast
qed

text \<open>
  Claim C8. For a mapping state \<open>A\<close> and an empty mapping, \<open>A.update(empty)\<close> changes no
  object of the store, and \<open>A.copy()\<close> followed by \<open>update(empty)\<close> on the copy leaves the
  copy with exactly the entries of \<open>A\<close>, again changing no earlier object.
\<close>

theorem update_with_empty_is_noop:
  assumes "deref h a = Some (ODict c es)" and "c \<noteq> PlainDict"
    and "deref h e = Some (ODict ce [])"
  shows "(\<exists>h'. StateDict_update h a (VRef e) = Inr h' \<and> take (length h) h' = h)
       \<and> (\<exists>h1 cp h2. StateDict_copy h a = Inr (h1, cp) \<and> call_update h1 cp (VRef e) = Inr h2
             \<and> deref h2 cp = Some (ODict PlainDict es) \<and> take (length h) h2 = h)"
proof
  from assms(1) have al: "a < length h" and ha: "h ! a = ODict c es"
    by (simp_all add: deref_Some_iff)
  have ne: "new_dict h c (VRef e) = Inr (h @ [ODict c []], length h)"
    using new_dict_mapping[OF assms(3)] by (simp add: dict_merge_def)
  have "StateDict_update h a (VRef e) = Inr (h @ [ODict c []])"
    using assms(1,2) ne
    by (simp add: StateDict_update_def StateDict_dunder_update_def obj_keys_def deref_def)
  then show "\<exists>h'. StateDict_update h a (VRef e) = Inr h' \<and> take (length h) h' = h"
    by simp
next
  let ?h1 = "h @ [ODict PlainDict es]"
  from assms(3) have el: "e < length h" and he: "h ! e = ODict ce []"
    by (simp_all add: deref_Some_iff)
  have d1: "deref ?h1 (length h) = Some (ODict PlainDict es)" by (simp add: deref_def)
  have d2: "deref ?h1 e = Some (ODict ce [])" using el he by (simp add: deref_def nth_append)
  have "call_update ?h1 (length h) (VRef e) = Inr ?h1"
    using d1 d2
    by (simp add: call_update_def dict_update_def dict_update_arg_def dict_merge_def)
  then show "\<exists>h1 cp h2. StateDict_copy h a = Inr (h1, cp) \<and> call_update h1 cp (VRef e) = Inr h2
             \<and> deref h2 cp = Some (ODict PlainDict es) \<and> take (length h) h2 = h"
    using StateDict_copy_dict[OF assms(1)] d1 by simp
qed

theorem update_with_empty_is_noop_witness:
  "deref with_empty_store 0 = Some (ODict StateDictC [(AStr ''k'', VAtom (AInt 7))])
   \<and> StateDictC \<noteq> PlainDict
   \<and> deref with_empty_store 1 = Some (ODict StateDictC [])
   \<and> (\<exists>h'. StateDict_update with_empty_store 0 (VRef 1) = Inr h'
         \<and> take (length with_empty_store) h' = with_empty_store)
   \<and> (\<exists>h1 cp h2. StateDict_copy with_empty_store 0 = Inr (h1, cp)
         \<and> call_update h1 cp (VRef 1) = Inr h2
         \<and> deref h2 cp = Some (ODict PlainDict [(AStr ''k'', VAtom (AInt 7))])
         \<and> take (length with_empty_store) h2 = with_empty_store)"
proof -
  have 1: "deref with_empty_store 0 = Some (ODict StateDictC [(AStr ''k'', VAtom (AInt 7))])"
    by (simp add: with_empty_store_def deref_def)
  have 2: "StateDictC \<noteq> PlainDict" by simp
  have 3: "deref with_empty_store 1 = Some (ODict StateDictC [])"
    by (simp add: with_empty_store_def deref_def)
  from update_with_empty_is_noop[OF 1 2 3] 1 2 3 show ?thesis by blast
qed

text \<open>
  Claim C9. For every type \<open>C\<close>, \<open>is_updatable(C)\<close> of the mapping-state family is true
  exactly when a class of \<open>C.__mro__\<close> binds the name \<open>update\<close>, and \<open>is_atomic(C)\<close> is
  its negation. Both are functions of the type alone: they neither read nor change the
  store.
\<close>

theorem is_updatable_iff_update_in_mro:
  assumes "mro_closed C"
  shows "is_updatable C = (\<exists>Sup \<in> set C. ''update'' \<in> set (cdict Sup))
       \<and> is_atomic C = (\<not> is_updatable C)"
proof -
  have cl: "State_cls \<in> set C \<longrightarrow> Updatable_cls \<in> set C"
    "View_cls \<in> set C \<longrightarrow> StateDict_cls \<in> set C"
    using assms by (simp_all add: mro_closed_def module_bases_def)
  have upd: "''update'' \<in> set (cdict Updatable_cls)" "''update'' \<in> set (cdict StateDict_cls)"
    "''update'' \<in> set (cdict History_cls)"
    by (simp_all add: Updatable_cls_def StateDict_cls_def History_cls_def)
  show ?thesis
  proof (cases "\<exists>Sup \<in> set C. ''update'' \<in> set (cdict Sup)")
    case True
    then show ?thesis
      by (simp add: is_atomic_def is_updatable_def issubclass_Updatable_def
          Updatable_subclasshook_def list_ex_iff)
  next
    case False
    then have "Updatable_cls \<notin> set C" "StateDict_cls \<notin> set C" "History_cls \<notin> set C"
      using upd by blast+
    moreover from this cl have "State_cls \<notin> set C" "View_cls \<notin> set C" by blast+
    ultimately show ?thesis using False
      by (simp add: is_atomic_def is_updatable_def issubclass_Updatable_def
          Updatable_subclasshook_def list_ex_iff abc_in_mro_def)
  qed
qed

theorem is_updatable_iff_update_in_mro_witness:
  "mro_closed mro_View \<and> is_updatable mro_View
   \<and> (\<exists>Sup \<in> set mro_View. ''update'' \<in> set (cdict Sup)) \<and> \<not> is_atomic mro_View
   \<and> mro_closed [int_cls, object_cls] \<and> \<not> is_updatable [int_cls, object_cls]
   \<and> \<not> (\<exists>Sup \<in> set [int_cls, object_cls]. ''update'' \<in> set (cdict Sup))
   \<and> is_atomic [int_cls, object_cls]"
proof -
  have 1: "mro_closed mro_View" by code_simp
  have 2: "mro_closed [int_cls, object_cls]" by code_simp
  have 3: "\<exists>Sup \<in> set mro_View. ''update'' \<in> set (cdict Sup)"
    by (simp add: mro_View_def mro_StateDict_def StateDict_cls_def)
  have 4: "\<not> (\<exists>Sup \<in> set [int_cls, object_cls]. ''update'' \<in> set (cdict Sup))"
    by (simp add: int_cls_def object_cls_def)
  from is_updatable_iff_update_in_mro[OF 1] is_updatable_iff_update_in_mro[OF 2] 1 2 3 4
  show ?thesis by blast
qed

text \<open>
  Claim C10. For a frozen-key state \<open>F\<close> and a mapping \<open>B\<close>, \<open>F | B\<close> returns a built-in
  \<open>dict\<close>, not a \<open>View\<close>; its keys are those of \<open>F\<close> together with those of \<open>B\<close>,
  every key of \<open>B\<close> carries the value it has in \<open>B\<close>, and every other key the value it
  has in \<open>F\<close>.
\<close>

theorem View_or_returns_plain_union:
  assumes "deref h F = Some (ODict ViewC ef)" and "deref h b = Some (ODict cb eb)"
    and "distinct (map fst eb)"
  shows "\<exists>h' c er. State_or h F (VRef b) = Inr (h', c)
           \<and> deref h' c = Some (ODict PlainDict er)
           \<and> set (map fst er) = set (map fst ef) \<union> set (map fst eb)
           \<and> (\<forall>k \<in> set (map fst eb). getitem er k = getitem eb k)
           \<and> (\<forall>k. k \<notin> set (map fst eb) \<longrightarrow> getitem er k = getitem ef k)"
proof -
  let ?er = "dict_merge ef eb"
  have m: "map_of ?er = map_of ef ++ map_of eb" by (rule map_of_dict_merge[OF assms(3)])
  have 1: "deref (h @ [ODict PlainDict ?er]) (length h) = Some (ODict PlainDict ?er)"
    by (simp add: deref_def)
  have 2: "set (map fst ?er) = set (map fst ef) \<union> set (map fst eb)"
    using keys_dict_merge[of ef eb] by simp
  have 3: "\<forall>k \<in> set (map fst eb). getitem ?er k = getitem eb k"
  proof
    fix k assume "k \<in> set (map fst eb)"
    then obtain v where "map_of eb k = Some v"
      using getitem_in_keys[of k eb] by (auto simp: getitem_def)
    then show "getitem ?er k = getitem eb k" by (simp add: getitem_def m)
  qed
  have 4: "\<forall>k. k \<notin> set (map fst eb) \<longrightarrow> getitem ?er k = getitem ef k"
  proof (intro allI impI)
    fix k assume "k \<notin> set (map fst eb)"
    then have "map_of eb k = None" by (simp add: map_of_eq_None_iff)
    then show "getitem ?er k = getitem ef k" by (simp add: getitem_def m map_add_def)
  qed
  show ?thesis
    using State_or_mapping[OF assms(1,2)] 1 2 3 4 by blast
qed


theorem View_or_returns_plain_union_witness:
  "deref frozen_store 0
     = Some (ODict ViewC [(AStr ''a'', VAtom (AInt 1)), (AStr ''b'', VAtom (AInt 2))])
   \<and> deref frozen_store 1
     = Some (ODict PlainDict [(AStr ''a'', VAtom (AInt 10)), (AStr ''c'', VAtom (AInt 99))])
   \<and> distinct (map fst [(AStr ''a'', VAtom (AInt 10)), (AStr ''c'', VAtom (AInt 99))])
   \<and> (\<exists>h' c er. State_or frozen_store 0 (VRef 1) = Inr (h', c)
         \<and> deref h' c = Some (ODict PlainDict er)
         \<and> set (map fst er) = {AStr ''a'', AStr ''b'', AStr ''c''}
         \<and> getitem er (AStr ''a'') = Some (VAtom (AInt 10))
         \<and> getitem er (AStr ''c'') = Some (VAtom (AInt 99))
         \<and> getitem er (AStr ''b'') = Some (VAtom (AInt 2)))"
proof -
  let ?ef = "[(AStr ''a'', VAtom (AInt 1)), (AStr ''b'', VAtom (AInt 2))]"
  let ?eb = "[(AStr ''a'', VAtom (AInt 10)), (AStr ''c'', VAtom (AInt 99))]"
  have 1: "deref frozen_store 0 = Some (ODict ViewC ?ef)"
    by (simp add: frozen_store_def deref_def)
  have 2: "deref frozen_store 1 = Some (ODict PlainDict ?eb)"
    by (simp add: frozen_store_def deref_def)
  have 3: "distinct (map fst ?eb)" by simp
  from View_or_returns_plain_union[OF 1 2 3]
  obtain h' c er where r: "State_or frozen_store 0 (VRef 1) = Inr (h', c)"
    "deref h' c = Some (ODict PlainDict er)"
    "set (map fst er) = set (map fst ?ef) \<union> set (map fst ?eb)"
    "\<forall>k \<in> set (map fst ?eb). getitem er k = getitem ?eb k"
    "\<forall>k. k \<notin> set (map fst ?eb) \<longrightarrow> getitem er k = getitem ?ef k"
    by blast
  have a: "set (map fst er) = {AStr ''a'', AStr ''b'', AStr ''c''}"
    using r(3) by auto
  have b: "getitem er (AStr ''a'') = Some (VAtom (AInt 10))"
    "getitem er (AStr ''c'') = Some (VAtom (AInt 99))"
    using r(4) by (simp_all add: getitem_def)
  have c: "getitem er (AStr ''b'') = Some (VAtom (AInt 2))"
    using r(5) by (simp add: getitem_def)
  show ?thesis using 1 2 3 r(1,2) a b c by blast
qed

section \<open>Where the code departs from the description\<close>

text \<open>
  The per-key step of the merge never changes a key that is already present: the call
  made by \<open>State.update_item\<close> returns without effect and without raising, so the
  \<open>TypeError\<close> handler of \<open>_update_item\<close> does not run. Whatever the stores and the
  incoming mapping, the values under the keys present before the call are the values
  afterwards, and no other earlier object changes.
\<close>

lemma State_update_item_returns: "State_update_item h first second = Inr h"
  by (simp add: State_update_item_def Updatable_update_def)

lemma Updater_update_item_atom: "Updater_update_item h (VAtom x) v = Inl TypeError"
  by (cases x)
    (simp_all add: Updater_update_item_def type_of_def is_atomic_def is_updatable_def
      issubclass_Updatable_def Updatable_subclasshook_def abc_in_mro_def NoneType_cls_def
      int_cls_def str_cls_def object_cls_def Updatable_cls_def State_cls_def
      StateDict_cls_def View_cls_def History_cls_def)

lemma StateDict_update_keeps_present_values:
  assumes "deref h a = Some (ODict c es)" and "c \<noteq> PlainDict"
    and "deref h b = Some (ODict cb eb)"
  shows "\<exists>h' es'. StateDict_update h a (VRef b) = Inr h'
           \<and> deref h' a = Some (ODict c es')
           \<and> (\<forall>k. k \<in> set (map fst es) \<longrightarrow> getitem es' k = getitem es k)
           \<and> (\<forall>x. x < length h \<and> x \<noteq> a \<longrightarrow> deref h' x = deref h x)"
proof -
  from assms(1) have al: "a < length h" by (simp add: deref_Some_iff)
  from StateDict_update_mapping[OF assms]
  obtain es' where es': "StateDict_update h a (VRef b)
        = Inr (h[a := ODict c es'] @ [ODict c (dict_merge [] eb)])"
    "\<forall>k. k \<in> set (map fst es) \<longrightarrow> map_of es' k = map_of es k"
    by blast
  let ?h' = "h[a := ODict c es'] @ [ODict c (dict_merge [] eb)]"
  have "deref ?h' a = Some (ODict c es')"
    using al by (simp add: deref_def nth_append)
  moreover have "\<forall>x. x < length h \<and> x \<noteq> a \<longrightarrow> deref ?h' x = deref h x"
    by (simp add: deref_def nth_append)
  ultimately show ?thesis using es' by (auto simp: getitem_def)
qed

text \<open>
  Claim C1 says that after \<open>self.update(other)\<close> a key present on both sides carries the
  recursive merge of the two values when both are mergeable, and the incoming value when
  the existing one is atomic. The code does neither. Merging
  \<open>{"a": {"b": {"c": 1}}}\<close> with \<open>{"a": {"b": {"c": 2, "d": 3}}}\<close> leaves the three nested
  objects as they were (the only change to the store is the temporary
  \<open>self.__class__(other)\<close>), and updating \<open>{"x": 1}\<close> with \<open>{"x": 2}\<close> leaves \<open>x\<close> at 1.
\<close>

theorem StateDict_update_merges_nothing:
  "StateDict_update nested_store 0 (VRef 3)
     = Inr (nested_store @ [ODict StateDictC [(AStr ''a'', VRef 4)]])
   \<and> StateDict_update atomic_store 0 (VRef 1)
     = Inr (atomic_store @ [ODict StateDictC [(AStr ''x'', VAtom (AInt 2))]])"
  by (simp add: nested_store_def atomic_store_def StateDict_update_def new_dict_def
      dict_update_arg_def dict_merge_def alloc_def deref_def StateDict_dunder_update_def
      obj_keys_def obj_getitem_def getitem_def obj_contains_def contains_def
      StateDict_update_item_def State_update_item_def Updatable_update_def)

text \<open>
  Claim C4 says that \<open>self.update(other)\<close> raises nothing to the caller because a type
  error of a per-key merge attempt is caught inside \<open>update\<close> and turned into an overwrite
  of that key. No exception does escape (lemma \<open>StateDict_update_no_exception\<close>), but not
  for that reason, and the overwrite never happens. For \<open>{"x": 1}\<close> updated with
  \<open>{"x": {"y": 2}}\<close> the check of \<open>Updater.update_item\<close> would raise \<open>TypeError\<close> on
  the atomic 1; the call that the code makes instead returns without raising, so
  \<open>_update_item\<close> leaves the store as it is and \<open>x\<close> stays 1 after \<open>update\<close>.
\<close>

theorem StateDict_update_never_overwrites:
  "Updater_update_item overwrite_store (VAtom (AInt 1)) (VRef 2) = Inl TypeError
   \<and> State_update_item overwrite_store (VAtom (AInt 1)) (VRef 2) = Inr overwrite_store
   \<and> StateDict_update_item overwrite_store 0 (AStr ''x'') (VRef 2) = Inr overwrite_store
   \<and> StateDict_update overwrite_store 0 (VRef 1)
     = Inr [ODict StateDictC [(AStr ''x'', VAtom (AInt 1))],
            ODict PlainDict [(AStr ''x'', VRef 2)],
            ODict PlainDict [(AStr ''y'', VAtom (AInt 2))],
            ODict StateDictC [(AStr ''x'', VRef 2)]]"
proof (intro conjI)
  show "Updater_update_item overwrite_store (VAtom (AInt 1)) (VRef 2) = Inl TypeError"
    by (rule Updater_update_item_atom)
  show "State_update_item overwrite_store (VAtom (AInt 1)) (VRef 2) = Inr overwrite_store"
    by (rule State_update_item_returns)
  show "StateDict_update_item overwrite_store 0 (AStr ''x'') (VRef 2) = Inr overwrite_store"
    by (simp add: overwrite_store_def StateDict_update_item_def obj_getitem_def deref_def
        getitem_def State_update_item_def Updatable_update_def)
  show "StateDict_update overwrite_store 0 (VRef 1)
     = Inr [ODict StateDictC [(AStr ''x'', VAtom (AInt 1))],
            ODict PlainDict [(AStr ''x'', VRef 2)],
            ODict PlainDict [(AStr ''y'', VAtom (AInt 2))],
            ODict StateDictC [(AStr ''x'', VRef 2)]]"
    by (simp add: overwrite_store_def StateDict_update_def new_dict_def
        dict_update_arg_def dict_merge_def alloc_def deref_def StateDict_dunder_update_def
        obj_keys_def obj_getitem_def getitem_def obj_contains_def contains_def
        StateDict_update_item_def State_update_item_def Updatable_update_def)
qed

text \<open>
  Claim C3 says that a frozen-key state built from \<open>{"a": 1, "b": 2}\<close> and updated with
  \<open>{"a": 10, "c": 99}\<close> becomes \<open>{"a": 10, "b": 2}\<close>. In the code the view, built at
  address 2, stays \<open>{"a": 1, "b": 2}\<close>: key \<open>c\<close> is dropped and \<open>b\<close> is untouched, but
  \<open>a\<close> keeps the value 1.
\<close>

theorem View_scenario_keeps_old_value:
  "new_dict scenario_store ViewC (VRef 0)
     = Inr (scenario_store
             @ [ODict ViewC [(AStr ''a'', VAtom (AInt 1)), (AStr ''b'', VAtom (AInt 2))]], 2)
   \<and> StateDict_update
       (scenario_store
          @ [ODict ViewC [(AStr ''a'', VAtom (AInt 1)), (AStr ''b'', VAtom (AInt 2))]])
       2 (VRef 1)
     = Inr (scenario_store
             @ [ODict ViewC [(AStr ''a'', VAtom (AInt 1)), (AStr ''b'', VAtom (AInt 2))],
                ODict ViewC [(AStr ''a'', VAtom (AInt 10)), (AStr ''c'', VAtom (AInt 99))]])"
  by (simp add: scenario_store_def StateDict_update_def new_dict_def
      dict_update_arg_def dict_merge_def alloc_def deref_def StateDict_dunder_update_def
      obj_keys_def obj_getitem_def getitem_def obj_contains_def contains_def
      StateDict_update_item_def State_update_item_def Updatable_update_def add_item_def)

text \<open>
  Claim C6 says that \<open>A.copy()\<close> is an independent container of \<open>A\<close>'s own type with equal
  contents. The copy is independent and has the entries of \<open>A\<close>, but its type is the
  built-in \<open>dict\<close>: the copy of a \<open>StateDict\<close> is not a \<open>StateDict\<close>.
\<close>

theorem StateDict_copy_is_builtin_dict:
  "StateDict_copy atomic_store 0
     = Inr (atomic_store @ [ODict PlainDict [(AStr ''x'', VAtom (AInt 1))]], 2)
   \<and> type_of (atomic_store @ [ODict PlainDict [(AStr ''x'', VAtom (AInt 1))]]) (VRef 2)
     = [dict_cls, object_cls]
   \<and> type_of atomic_store (VRef 0) = mro_StateDict"
  by (simp add: atomic_store_def StateDict_copy_def alloc_def deref_def type_of_def)

text \<open>
  What does hold of \<open>copy\<close>: the new object has the entries of the original, and storing
  under a key of the copy leaves the original as it was.
\<close>

lemma StateDict_copy_independent:
  assumes "deref h a = Some (ODict c es)"
  shows "\<exists>h1 cp h2. StateDict_copy h a = Inr (h1, cp)
           \<and> deref h1 cp = Some (ODict PlainDict es)
           \<and> obj_setitem h1 cp k v = Inr h2
           \<and> deref h2 a = Some (ODict c es)"
proof -
  from assms have "a < length h" "h ! a = ODict c es" by (simp_all add: deref_Some_iff)
  then show ?thesis
    using StateDict_copy_dict[OF assms]
    by (simp add: deref_def obj_setitem_def nth_append)
qed

text \<open>
  Claim C7 says that \<open>L.push(item)\<close> is \<open>L.update([item])\<close> and appends exactly the one
  element \<open>item\<close>. The code calls \<open>self.update(item)\<close>, which extends the log by the
  elements of \<open>item\<close>: on the log \<open>[1, 2]\<close>, \<open>push(5)\<close> raises \<open>TypeError\<close> where
  \<open>update([5])\<close> gives \<open>[1, 2, 5]\<close>, and \<open>push\<close> of a list is \<open>update\<close> of that list.
\<close>

theorem History_push_extends_with_item:
  "History_push log_store 0 (VAtom (AInt 5)) = Inl TypeError
   \<and> History_update log_store 0 (VRef 1)
     = Inr [OList HistoryC [VAtom (AInt 1), VAtom (AInt 2), VAtom (AInt 5)],
            OList PlainList [VAtom (AInt 5)]]
   \<and> History_push log_store 0 (VRef 1) = History_update log_store 0 (VRef 1)"
  by (simp add: log_store_def History_push_def History_update_def iter_val_def deref_def)

end
